theory Spec2Isabelle
  imports Main "HOL-Library.AList"
begin

section \<open>Python values, dictionaries and exceptions\<close>

text \<open>
  The values that travel through settings, server replies and request payloads:
  \<open>None\<close>, booleans, integers and strings. Python compares them with \<open>==\<close>, under
  which \<open>True == 1\<close> and \<open>False == 0\<close> hold (\<open>bool\<close> is a subclass of \<open>int\<close>) and
  values of unrelated types are never equal. A string is a list of characters, each
  of them a code point below 256.
\<close>

datatype pyval = PNone | PBool bool | PInt int | PStr string

fun py_eq :: "pyval \<Rightarrow> pyval \<Rightarrow> bool" where
  "py_eq PNone PNone = True"
| "py_eq (PBool a) (PBool b) = (a = b)"
| "py_eq (PBool a) (PInt j) = ((if a then 1 else 0) = j)"
| "py_eq (PInt i) (PBool b) = (i = (if b then 1 else 0))"
| "py_eq (PInt i) (PInt j) = (i = j)"
| "py_eq (PStr s) (PStr t) = (s = t)"
| "py_eq _ _ = False"

datatype py_error = KeyError | ValueError | UnboundLocalError

text \<open>
  A \<open>dict\<close> keeps its keys in insertion order: an association list whose keys are
  pairwise different. \<open>d[k] = v\<close> overwrites the entry of \<open>k\<close> in place or appends a
  new one (\<open>AList.update\<close>), \<open>d[k]\<close> raises \<open>KeyError\<close> on a missing key.
\<close>

type_synonym 'v dict = "(string \<times> 'v) list"

text \<open>
  A method that mutates its object and may raise: \<open>Inr s\<close> is a normal return that
  leaves the state \<open>s\<close>, \<open>Inl (e, s)\<close> is the exception \<open>e\<close> raised with the state \<open>s\<close>
  left behind (whatever had been mutated before the raise stays mutated).
\<close>

type_synonym 's outcome = "(py_error \<times> 's) + 's"

definition getitem :: "'v dict \<Rightarrow> string \<Rightarrow> py_error + 'v" where
  "getitem d k = (case map_of d k of None \<Rightarrow> Inl KeyError | Some v \<Rightarrow> Inr v)"

definition dict_update :: "'v dict \<Rightarrow> 'v dict \<Rightarrow> 'v dict" where
  \<comment> \<open>\<open>d.update(other)\<close>\<close>
  "dict_update d other = fold (\<lambda>(k, v). AList.update k v) other d"

definition list_remove :: "'a \<Rightarrow> 'a list \<Rightarrow> 'a list option" where
  \<comment> \<open>\<open>xs.remove(x)\<close>: drops the first occurrence; \<open>None\<close> stands for \<open>ValueError\<close>\<close>
  "list_remove x xs = (if x \<in> set xs then Some (remove1 x xs) else None)"

fun startswith :: "string \<Rightarrow> string \<Rightarrow> bool" where
  \<comment> \<open>\<open>startswith p s\<close> is \<open>s.startswith(p)\<close>\<close>
  "startswith [] s = True"
| "startswith (c # p) [] = False"
| "startswith (c # p) (d # s) = (c = d \<and> startswith p s)"

definition split0 :: "string \<Rightarrow> string" where
  \<comment> \<open>\<open>s.split(":")[0]\<close>: the part of \<open>s\<close> before its first colon\<close>
  "split0 s = takeWhile (\<lambda>c. c \<noteq> CHR '':'') s"

subsection \<open>The builtin \<open>int\<close> on a string\<close>

text \<open>
  \<open>int(s)\<close> as CPython (3.11 and later, default settings) reads a string of code
  points below 256. The blanks it skips at both ends are the six ASCII ones (tab, line
  feed, vertical tab, form feed, carriage return, space) and the two other whitespace
  characters of that range, U+0085 and U+00A0, which it first turns into spaces; the
  separators U+001C to U+001F are not skipped. One sign may lead, and the rest is
  decimal digits \<open>0\<close> to \<open>9\<close> (the range has no other decimal digit), where a single
  underscore may stand between two digits. A text of more than 4300 digits is refused.
  Everything else raises \<open>ValueError\<close> too (\<open>None\<close> here).
\<close>

definition is_space :: "char \<Rightarrow> bool" where
  "is_space c = (c \<in> set [CHR 0x09, CHR 0x0A, CHR 0x0B, CHR 0x0C, CHR 0x0D, CHR 0x20,
                            CHR 0x85, CHR 0xA0])"

definition is_digit :: "char \<Rightarrow> bool" where
  "is_digit c = (c \<in> set ''0123456789'')"

definition digit_val :: "char \<Rightarrow> nat" where
  "digit_val c = length (takeWhile (\<lambda>d. d \<noteq> c) ''0123456789'')"

definition strip :: "string \<Rightarrow> string" where
  "strip s = rev (dropWhile is_space (rev (dropWhile is_space s)))"

fun parse_digits :: "string \<Rightarrow> nat \<Rightarrow> bool \<Rightarrow> nat option" where
  \<comment> \<open>the flag says that the character just read was a digit\<close>
  "parse_digits [] acc after_digit = (if after_digit then Some acc else None)"
| "parse_digits (c # cs) acc after_digit =
     (if is_digit c then parse_digits cs (10 * acc + digit_val c) True
      else if c = CHR ''_'' \<and> after_digit then parse_digits cs acc False
      else None)"

definition digits_value :: "string \<Rightarrow> nat option" where
  "digits_value ds =
     (if 4300 < length (filter is_digit ds) then None else parse_digits ds 0 False)"

definition py_int :: "string \<Rightarrow> int option" where
  "py_int s =
     (case strip s of
        [] \<Rightarrow> None
      | c # cs \<Rightarrow>
          if c = CHR ''-'' then map_option (\<lambda>n. - int n) (digits_value cs)
          else if c = CHR ''+'' then map_option int (digits_value cs)
          else map_option int (digits_value (c # cs)))"

section \<open>The settings store (Qt's QSettings)\<close>

text \<open>
  \<open>QSettings\<close> is Qt's, not the repository's. Every \<open>QSettings()\<close> object of the
  application reads and writes one persistent store of key/value pairs whose keys are
  slash-separated paths. An object carries a stack of open groups; an open array is a
  group with the number of its current entry (index plus one, \<open>0\<close> while none is set).
  A key is written under the prefix the stack spells out.
\<close>

record qsettings =
  store :: "pyval dict"
  groupStack :: "(string \<times> nat) list"

definition QSettings :: "pyval dict \<Rightarrow> qsettings" where
  "QSettings st = \<lparr>store = st, groupStack = []\<rparr>"

definition digit_char :: "nat \<Rightarrow> char" where
  "digit_char n = ''0123456789'' ! n"

fun string_of_nat :: "nat \<Rightarrow> string" where
  "string_of_nat n =
     (if n < 10 then [digit_char n] else string_of_nat (n div 10) @ [digit_char (n mod 10)])"

definition group_toString :: "string \<times> nat \<Rightarrow> string" where
  "group_toString g = (if 0 < snd g then fst g @ ''/'' @ string_of_nat (snd g) else fst g)"

definition groupPrefix :: "qsettings \<Rightarrow> string" where
  "groupPrefix q = concat (map (\<lambda>g. group_toString g @ ''/'') (groupStack q))"

definition beginGroup :: "string \<Rightarrow> qsettings \<Rightarrow> qsettings" where
  "beginGroup p q = q\<lparr>groupStack := groupStack q @ [(p, 0)]\<rparr>"

definition endGroup :: "qsettings \<Rightarrow> qsettings" where
  "endGroup q = q\<lparr>groupStack := butlast (groupStack q)\<rparr>"

definition setValue :: "string \<Rightarrow> pyval \<Rightarrow> qsettings \<Rightarrow> qsettings" where
  "setValue k v q = q\<lparr>store := AList.update (groupPrefix q @ k) v (store q)\<rparr>"

definition qremove :: "string \<Rightarrow> qsettings \<Rightarrow> qsettings" where
  \<comment> \<open>\<open>remove(key)\<close>: the key and everything below it; the empty key names the
      current group, and the whole store when no group is open\<close>
  "qremove k q =
     (let theKey = (if k = [] then butlast (groupPrefix q) else groupPrefix q @ k)
      in if theKey = [] then q\<lparr>store := []\<rparr>
         else q\<lparr>store := filter (\<lambda>(k', v). k' \<noteq> theKey \<and> \<not> startswith (theKey @ ''/'') k')
                                  (store q)\<rparr>)"

definition beginWriteArray :: "string \<Rightarrow> int \<Rightarrow> qsettings \<Rightarrow> qsettings" where
  "beginWriteArray p n q = setValue ''size'' (PInt n) (q\<lparr>groupStack := groupStack q @ [(p, 0)]\<rparr>)"

definition setArrayIndex :: "nat \<Rightarrow> qsettings \<Rightarrow> qsettings" where
  "setArrayIndex i q =
     (case rev (groupStack q) of
        [] \<Rightarrow> q
      | g # gs \<Rightarrow> q\<lparr>groupStack := rev gs @ [(fst g, i + 1)]\<rparr>)"

definition endArray :: "qsettings \<Rightarrow> qsettings" where
  "endArray q = q\<lparr>groupStack := butlast (groupStack q)\<rparr>"

section \<open>The Dynamips module\<close>

text \<open>
  A server connection is an object compared by identity; the number is that identity.
  The module's state is the three attributes \<open>_settings\<close>, \<open>_ios_images\<close> and
  \<open>_servers\<close>, together with the part of the world its methods act on: the persistent
  settings store, the notifications handed to servers (in the order sent) and whether
  the local server of \<open>Servers.instance()\<close> is connected.

  Modelled from the spec: the server class and \<open>Servers\<close> (\<open>gns3.servers\<close>) are not
  among the sources. By the spec's transport contract \<open>send_notification\<close> hands a
  method name and a payload to one server and \<open>connect\<close> either establishes the
  connection or fails with a transport error; \<open>localServer()\<close> is the designated
  default server.
\<close>

type_synonym server = nat

record dynamips =
  settings :: "pyval dict"
  ios_images :: "(pyval dict) dict"
  servers :: "server list"
  qstore :: "pyval dict"
  notifications :: "(server \<times> string \<times> pyval dict) list"
  local_server :: server
  local_connected :: bool

definition send_notification :: "server \<Rightarrow> string \<Rightarrow> pyval dict \<Rightarrow> dynamips \<Rightarrow> dynamips" where
  "send_notification server method params m =
     m\<lparr>notifications := notifications m @ [(server, method, params)]\<rparr>"

definition saveSettings :: "dynamips \<Rightarrow> dynamips" where
  "saveSettings m =
     (let q = beginGroup ''Dynamips'' (QSettings (qstore m));
          q = fold (\<lambda>(name, v). setValue name v) (settings m) q;
          q = endGroup q
      in m\<lparr>qstore := store q\<rparr>)"

fun write_images :: "pyval dict list \<Rightarrow> nat \<Rightarrow> qsettings \<Rightarrow> qsettings" where
  "write_images [] index q = q"
| "write_images (ios_image # rest) index q =
     write_images rest (index + 1)
       (fold (\<lambda>(name, v). setValue name v) ios_image (setArrayIndex index q))"

definition saveIOSImages :: "dynamips \<Rightarrow> dynamips" where
  "saveIOSImages m =
     (let q = beginGroup ''IOS_images'' (QSettings (qstore m));
          q = qremove [] q;
          q = beginWriteArray ''ios_image'' (int (length (ios_images m))) q;
          q = write_images (map snd (ios_images m)) 0 q;
          q = endArray q;
          q = endGroup q
      in m\<lparr>qstore := store q\<rparr>)"

definition setIOSImages :: "dynamips \<Rightarrow> (pyval dict) dict \<Rightarrow> dynamips" where
  "setIOSImages m new_ios_images = saveIOSImages (m\<lparr>ios_images := new_ios_images\<rparr>)"

definition addServer :: "dynamips \<Rightarrow> server \<Rightarrow> dynamips" where
  "addServer m server =
     send_notification server ''dynamips.settings'' (settings m)
       (m\<lparr>servers := servers m @ [server]\<rparr>)"

definition removeServer :: "dynamips \<Rightarrow> server \<Rightarrow> dynamips outcome" where
  "removeServer m server =
     (case list_remove server (servers m) of
        None \<Rightarrow> Inl (ValueError, m)
      | Some rest \<Rightarrow> Inr (m\<lparr>servers := rest\<rparr>))"

fun changed_params :: "pyval dict \<Rightarrow> pyval dict \<Rightarrow> pyval dict \<Rightarrow> py_error + pyval dict" where
  "changed_params cur [] params = Inr params"
| "changed_params cur ((name, v) # rest) params =
     (case getitem cur name of
        Inl e \<Rightarrow> Inl e
      | Inr c \<Rightarrow>
          changed_params cur rest (if \<not> py_eq c v then AList.update name v params else params))"

definition setSettings :: "dynamips \<Rightarrow> pyval dict \<Rightarrow> dynamips outcome" where
  "setSettings m new_settings =
     (case changed_params (settings m) new_settings [] of
        Inl e \<Rightarrow> Inl (e, m)
      | Inr params \<Rightarrow>
          (let m1 = (if params \<noteq> []
                     then fold (\<lambda>server. send_notification server ''dynamips.settings'' params)
                            (servers m) m
                     else m);
               m2 = m1\<lparr>settings := dict_update (settings m1) new_settings\<rparr>
           in Inr (saveSettings m2)))"

text \<open>
  The node classes of \<open>Dynamips.nodes()\<close>. \<open>C2691\<close> derives from \<open>Router\<close> and
  \<open>FrameRelaySwitch\<close> from \<open>Node\<close>.

  Modelled from the spec: the other node classes are not among the sources. The
  router-family devices are the platforms \<open>c1700\<close> to \<open>c7200\<close>; the cloud, the
  switches and the hub are not routers.
\<close>

datatype node_class =
  C1700 | C2600 | C2691 | C3600 | C3725 | C3745 | C7200
  | Cloud | EthernetSwitch | EthernetHub | FrameRelaySwitch | ATMSwitch

definition nodes :: "node_class list" where
  "nodes = [C1700, C2600, C2691, C3600, C3725, C3745, C7200, Cloud, EthernetSwitch,
            EthernetHub, FrameRelaySwitch, ATMSwitch]"

definition isinstance_Router :: "node_class \<Rightarrow> bool" where
  "isinstance_Router c = (c \<in> set [C1700, C2600, C2691, C3600, C3725, C3745, C7200])"

text \<open>
  What the module sees of a node: its class, the server it is bound to and its
  settings dictionary (\<open>node.settings()\<close>).
\<close>

record node =
  node_cls :: node_class
  node_server :: server
  node_settings :: "pyval dict"

text \<open>
  \<open>createNode\<close>: \<open>connect_ok\<close> says whether \<open>server.connect()\<close> returns (otherwise it
  raises \<open>socket.error\<close>, which the method catches, prints and answers with no node).
  The node the method returns is \<open>node_class(server)\<close>, given here by the class and the
  server.
\<close>

definition createNode :: "bool \<Rightarrow> dynamips \<Rightarrow> node_class \<Rightarrow> (node_class \<times> server) option \<times> dynamips" where
  "createNode connect_ok m node_class =
     (let server = local_server m in
      if \<not> local_connected m then
        (if connect_ok
         then (Some (node_class, server), addServer (m\<lparr>local_connected := True\<rparr>) server)
         else (None, m))
      else (Some (node_class, server), addServer m server))"

fun first_platform :: "pyval dict list \<Rightarrow> pyval \<Rightarrow> py_error + (pyval dict) option" where
  "first_platform [] platform = Inr None"
| "first_platform (ios_image # rest) platform =
     (case getitem ios_image ''platform'' of
        Inl e \<Rightarrow> Inl e
      | Inr p \<Rightarrow> if py_eq p platform then Inr (Some ios_image) else first_platform rest platform)"

definition allocateIOSImage :: "dynamips \<Rightarrow> node \<Rightarrow> py_error + (pyval dict) option" where
  "allocateIOSImage m node =
     (case getitem (node_settings node) ''platform'' of
        Inl e \<Rightarrow> Inl e
      | Inr platform \<Rightarrow> first_platform (map snd (ios_images m)) platform)"

text \<open>\<open>setupNode\<close> answers with the arguments of the \<open>node.setup(...)\<close> call it makes.\<close>

datatype setup_call = Setup "pyval list"

definition setupNode :: "dynamips \<Rightarrow> node \<Rightarrow> py_error + setup_call" where
  "setupNode m node =
     (if isinstance_Router (node_cls node) then
        (case allocateIOSImage m node of
           Inl e \<Rightarrow> Inl e
         | Inr ios_image \<Rightarrow>
             Inr (Setup [PStr ''/home/grossmj/Documents/IOS images/c3725-adventerprisek9-mz.124-15.T14.image'',
                         PInt 128]))
      else Inr (Setup []))"

section \<open>The Frame Relay switch node\<close>

text \<open>
  Modelled from the spec: the NIO classes (\<open>gns3.nios\<close>) are not among the sources. A
  network interface object is of the UDP kind, with its attributes \<open>lport\<close>, \<open>rhost\<close>
  and \<open>rport\<close>, or of some other kind.
\<close>

datatype nio = NIO_UDP int string int | NIO_other

text \<open>
  A port object with its attributes \<open>name\<close>, \<open>port\<close> and \<open>nio\<close>.
\<close>

record port =
  port_name :: string
  port_port :: int
  port_nio :: "nio option"

text \<open>
  Modelled from the spec: the port classes (\<open>gns3.ports\<close>) are not among the sources.
  The spec's data model gives a port its bound interface, an optional reference to an
  NIO, where \<open>None\<close> means free.
\<close>

definition isFree :: "port \<Rightarrow> bool" where
  "isFree p = (port_nio p = None)"

text \<open>
  \<open>port = SerialPort(port_name); port.port = int(port_name)\<close>: the new port carries its
  name and its number and is free. The model builds the object once the number is
  known; when \<open>int\<close> raises, the object Python had already built is unreachable.
\<close>

definition new_port :: "string \<Rightarrow> int \<Rightarrow> port" where
  "new_port pname i = \<lparr>port_name = pname, port_port = i, port_nio = None\<rparr>"

text \<open>
  The effects of a node on its surroundings, in the order they happen: the requests
  handed to the server's \<open>send_message\<close> (method, payload, the callback registered for
  the reply), the signals emitted to observers, and the assignments to the \<open>nio\<close>
  attribute of a port object that the caller handed in (\<open>port.nio = v\<close>, given by the
  reference of the port and the value \<open>v\<close>).

  Modelled from the spec: the transport and the signals of the base class \<open>Node\<close>
  (\<open>gns3.node\<close>) are not among the sources. By the spec \<open>send\<close> fires a request whose
  reply reaches the registered callback later, and a signal is a notification to the
  observers of the node; neither changes the node.
\<close>

datatype signal =
  Newname_signal pyval
  | Delete_links_signal
  | Delete_signal
  | Error_signal pyval pyval pyval

datatype callback = SetupCallback | DeleteCallback | AddNIOCallback | DeleteNIOCallback

datatype jval = Val pyval | Dict "string dict"

datatype event =
  Send_message server string "jval dict option" callback
  | Emit signal
  | Assign_nio nat "nio option"

text \<open>
  The settings dictionary of a switch has the two keys \<open>name\<close> and \<open>mapping\<close>, from
  its construction on. A mapping is a dictionary from source endpoints to destination
  endpoints, each a string \<open>port:dlci\<close>. Of the dictionary it is given, \<open>update\<close>
  reads the key \<open>mapping\<close> only.
\<close>

record frsw_settings =
  s_name :: pyval
  s_mapping :: "string dict"

text \<open>
  The switch: its attributes \<open>_server\<close>, \<open>_frsw_id\<close>, \<open>_ports\<close> and \<open>_settings\<close>. Ports are
  objects shared with the caller, so \<open>ports\<close> holds references into \<open>heap\<close>, the store
  of all port objects (a reference is the object's position; a new object is appended).
\<close>

record frsw =
  frsw_server :: server
  frsw_id :: pyval
  ports :: "nat list"
  fr_settings :: frsw_settings
  heap :: "port list"
  events :: "event list"

definition ports_allocated :: "frsw \<Rightarrow> bool" where
  \<comment> \<open>every port of the switch is an object of the store\<close>
  "ports_allocated n = list_all (\<lambda>r. r < length (heap n)) (ports n)"

definition new_FrameRelaySwitch :: "server \<Rightarrow> frsw" where
  "new_FrameRelaySwitch server =
     \<lparr>frsw_server = server, frsw_id = PNone, ports = [],
      fr_settings = \<lparr>s_name = PStr '''', s_mapping = []\<rparr>, heap = [], events = []\<rparr>"

definition send_message :: "string \<Rightarrow> jval dict option \<Rightarrow> callback \<Rightarrow> frsw \<Rightarrow> frsw" where
  "send_message method payload cb n =
     n\<lparr>events := events n @ [Send_message (frsw_server n) method payload cb]\<rparr>"

definition emit :: "signal \<Rightarrow> frsw \<Rightarrow> frsw" where
  "emit sig n = n\<lparr>events := events n @ [Emit sig]\<rparr>"

definition assign_nio :: "nat \<Rightarrow> nio option \<Rightarrow> frsw \<Rightarrow> frsw" where
  \<comment> \<open>\<open>port.nio = v\<close> for the port object at \<open>r\<close>\<close>
  "assign_nio r v n =
     n\<lparr>heap := (heap n)[r := (heap n ! r)\<lparr>port_nio := v\<rparr>],
       events := events n @ [Assign_nio r v]\<rparr>"

definition setup_frsw :: "frsw \<Rightarrow> frsw" where
  \<comment> \<open>\<open>FrameRelaySwitch.setup\<close>\<close>
  "setup_frsw n = send_message ''dynamips.frsw.create'' None SetupCallback n"

definition setupCallback :: "frsw \<Rightarrow> pyval dict \<Rightarrow> bool \<Rightarrow> frsw outcome" where
  "setupCallback n response error =
     (case getitem response ''id'' of
        Inl e \<Rightarrow> Inl (e, n)
      | Inr i \<Rightarrow>
          (let n1 = n\<lparr>frsw_id := i\<rparr> in
           case getitem response ''name'' of
             Inl e \<Rightarrow> Inl (e, n1)
           | Inr nm \<Rightarrow>
               (let n2 = n1\<lparr>fr_settings := (fr_settings n1)\<lparr>s_name := nm\<rparr>\<rparr>
                in Inr (emit (Newname_signal (s_name (fr_settings n2))) n2))))"

definition delete :: "frsw \<Rightarrow> frsw" where
  "delete n =
     send_message ''dynamips.frsw.delete'' (Some [(''id'', Val (frsw_id n))]) DeleteCallback
       (emit Delete_links_signal n)"

text \<open>
  The calls to the logger leave no trace here; the lookups their arguments perform
  are kept, in the order Python evaluates them.
\<close>

definition deleteCallback :: "frsw \<Rightarrow> pyval dict \<Rightarrow> bool \<Rightarrow> frsw outcome" where
  "deleteCallback n result error =
     (if error then
        (case getitem result ''message'' of
           Inl e \<Rightarrow> Inl (e, n)
         | Inr logged \<Rightarrow>
             (case getitem result ''code'' of
                Inl e \<Rightarrow> Inl (e, n)
              | Inr code \<Rightarrow>
                  (case getitem result ''message'' of
                     Inl e \<Rightarrow> Inl (e, n)
                   | Inr message \<Rightarrow>
                       Inr (emit (Error_signal (s_name (fr_settings n)) code message) n))))
      else Inr (emit Delete_signal n))"

fun collect_ports :: "string dict \<Rightarrow> string list \<Rightarrow> string list" where
  "collect_ports [] ports_to_create = ports_to_create"
| "collect_ports ((source, destination) # rest) ports_to_create =
     (let source_port = split0 source;
          destination_port = split0 destination;
          ports_to_create =
            (if source_port \<notin> set ports_to_create then ports_to_create @ [source_port]
             else ports_to_create);
          ports_to_create =
            (if destination_port \<notin> set ports_to_create then ports_to_create @ [destination_port]
             else ports_to_create)
      in collect_ports rest ports_to_create)"

text \<open>
  The loop over \<open>self._ports.copy()\<close>: the copy still to visit, the list \<open>self._ports\<close>
  and \<open>ports_to_create\<close> as they stand. \<open>Inl\<close> is the \<open>ValueError\<close> of a failed
  \<open>remove\<close>, with \<open>self._ports\<close> as it stands at the raise.
\<close>

fun reconcile_ports ::
  "port list \<Rightarrow> nat list \<Rightarrow> nat list \<Rightarrow> string list \<Rightarrow> nat list + (nat list \<times> string list)" where
  "reconcile_ports h [] ps ports_to_create = Inr (ps, ports_to_create)"
| "reconcile_ports h (r # rs) ps ports_to_create =
     (if isFree (h ! r) then
        (case list_remove r ps of
           None \<Rightarrow> Inl ps
         | Some ps' \<Rightarrow> reconcile_ports h rs ps' ports_to_create)
      else
        (case list_remove (port_name (h ! r)) ports_to_create of
           None \<Rightarrow> Inl ps
         | Some ports_to_create' \<Rightarrow> reconcile_ports h rs ps ports_to_create'))"

fun create_ports :: "string list \<Rightarrow> frsw \<Rightarrow> frsw outcome" where
  "create_ports [] n = Inr n"
| "create_ports (pname # rest) n =
     (case py_int pname of
        None \<Rightarrow> Inl (ValueError, n)
      | Some i \<Rightarrow>
          create_ports rest
            (n\<lparr>heap := heap n @ [new_port pname i], ports := ports n @ [length (heap n)]\<rparr>))"

definition update :: "frsw \<Rightarrow> frsw_settings \<Rightarrow> frsw outcome" where
  "update n new_settings =
     (let ports_to_create = collect_ports (s_mapping new_settings) [] in
      case reconcile_ports (heap n) (ports n) (ports n) ports_to_create of
        Inl ps \<Rightarrow> Inl (ValueError, n\<lparr>ports := ps\<rparr>)
      | Inr (ps, ports_to_create) \<Rightarrow>
          (case create_ports ports_to_create (n\<lparr>ports := ps\<rparr>) of
             Inl failed \<Rightarrow> Inl failed
           | Inr n' \<Rightarrow>
               Inr (n'\<lparr>fr_settings := (fr_settings n')\<lparr>s_mapping := s_mapping new_settings\<rparr>\<rparr>)))"

fun nio_mapping :: "string \<Rightarrow> string dict \<Rightarrow> string dict \<Rightarrow> string dict" where
  \<comment> \<open>the loop of \<open>addNIO\<close> that fills \<open>params["mapping"]\<close> for the port named \<open>pname\<close>\<close>
  "nio_mapping pname [] m = m"
| "nio_mapping pname ((source, destination) # rest) m =
     (let source_port = split0 source;
          destination_port = split0 destination;
          m = (if pname = source_port then AList.update source destination m else m);
          m = (if pname = destination_port then AList.update destination source m else m)
      in nio_mapping pname rest m)"

definition addNIO :: "frsw \<Rightarrow> nat \<Rightarrow> nio \<Rightarrow> frsw outcome" where
  "addNIO n r nio =
     (case nio of
        NIO_UDP lport rhost rport \<Rightarrow>
          (let params = [(''id'', Val (frsw_id n)),
                         (''nio'', Val (PStr ''NIO_UDP'')),
                         (''port'', Val (PInt (port_port (heap n ! r)))),
                         (''lport'', Val (PInt lport)),
                         (''rhost'', Val (PStr rhost)),
                         (''rport'', Val (PInt rport))];
               params = AList.update ''mapping'' (Dict []) params;
               params = AList.update ''mapping''
                          (Dict (nio_mapping (port_name (heap n ! r)) (s_mapping (fr_settings n)) []))
                          params
           in Inr (send_message ''dynamips.frsw.add_nio'' (Some params) AddNIOCallback n))
      | NIO_other \<Rightarrow> Inl (UnboundLocalError, n))"

definition deleteNIO :: "frsw \<Rightarrow> nat \<Rightarrow> frsw" where
  "deleteNIO n r =
     (let params = [(''id'', Val (frsw_id n)), (''port'', Val (PInt (port_port (heap n ! r))))];
          n1 = assign_nio r None n
      in send_message ''dynamips.frsw.delete_nio'' (Some params) DeleteNIOCallback n1)"

section \<open>Notions the properties are stated with\<close>

subsection \<open>Settings of the module\<close>

text \<open>
  A key of the new settings differs when the module holds the key with a value that
  Python's \<open>!=\<close> tells apart from the new one. \<open>sent_to m m' s\<close> lists, in order,
  what server \<open>s\<close> was sent between the states \<open>m\<close> and \<open>m'\<close>.
\<close>

definition differs :: "pyval dict \<Rightarrow> string \<times> pyval \<Rightarrow> bool" where
  "differs cur kv = (case map_of cur (fst kv) of None \<Rightarrow> False | Some c \<Rightarrow> \<not> py_eq c (snd kv))"

definition changed_keys :: "pyval dict \<Rightarrow> pyval dict \<Rightarrow> string set" where
  "changed_keys cur new = fst ` set (filter (differs cur) new)"

definition sent_to :: "dynamips \<Rightarrow> dynamips \<Rightarrow> server \<Rightarrow> (string \<times> pyval dict) list" where
  "sent_to m m' s = map snd (filter (\<lambda>e. fst e = s) (drop (length (notifications m)) (notifications m')))"

text \<open>
  A module whose server list names server \<open>0\<close> twice (as after two \<open>createNode\<close>
  calls), the settings it is given, and the state \<open>setSettings\<close> leaves.
\<close>

definition twice_module :: dynamips where
  "twice_module = \<lparr>settings = [(''path'', PStr ''dynamips'')], ios_images = [], servers = [0, 0],
     qstore = [], notifications = [], local_server = 0, local_connected = True\<rparr>"

definition twice_new :: "pyval dict" where
  "twice_new = [(''path'', PStr ''/usr/bin/dynamips'')]"

definition twice_after :: dynamips where
  "twice_after = \<lparr>settings = [(''path'', PStr ''/usr/bin/dynamips'')], ios_images = [],
     servers = [0, 0],
     qstore = [(''Dynamips/path'', PStr ''/usr/bin/dynamips'')],
     notifications = [(0, ''dynamips.settings'', [(''path'', PStr ''/usr/bin/dynamips'')]),
                      (0, ''dynamips.settings'', [(''path'', PStr ''/usr/bin/dynamips'')])],
     local_server = 0, local_connected = True\<rparr>"

text \<open>
  A module with two servers; of the two new settings only the UDP port differs
  (\<open>True\<close> and \<open>1\<close> are equal).
\<close>

definition two_server_module :: dynamips where
  "two_server_module = \<lparr>settings = [(''path'', PStr ''dynamips''), (''base_udp_port'', PInt 10001),
                              (''mmap_support'', PBool True)],
     ios_images = [], servers = [1, 2],
     qstore = [], notifications = [], local_server = 1, local_connected = True\<rparr>"

definition two_server_new :: "pyval dict" where
  "two_server_new = [(''base_udp_port'', PInt 20000), (''mmap_support'', PInt 1)]"

subsection \<open>Sequences of calls on the module\<close>

text \<open>
  The calls that touch the server list. \<open>CreateNode\<close> carries whether a connection
  attempt would succeed. \<open>state_of\<close> is the state a call leaves, whether it returned
  or raised; \<open>run\<close> makes the calls one after the other, a caller that catches the
  \<open>ValueError\<close> of \<open>removeServer\<close> going on with the state left behind.
  \<open>appended m c\<close> is what call \<open>c\<close> appends to the server list in state \<open>m\<close>, and
  \<open>adds_absent m cs\<close> says that, along the run, no call appends a server the list
  already holds.
\<close>

datatype module_call = AddServer server | RemoveServer server | CreateNode bool node_class

definition state_of :: "'s outcome \<Rightarrow> 's" where
  "state_of r = (case r of Inl (e, s) \<Rightarrow> s | Inr s \<Rightarrow> s)"

fun call :: "dynamips \<Rightarrow> module_call \<Rightarrow> dynamips" where
  "call m (AddServer s) = addServer m s"
| "call m (RemoveServer s) = state_of (removeServer m s)"
| "call m (CreateNode connect_ok cls) = snd (createNode connect_ok m cls)"

fun run :: "dynamips \<Rightarrow> module_call list \<Rightarrow> dynamips" where
  "run m [] = m"
| "run m (c # cs) = run (call m c) cs"

fun appended :: "dynamips \<Rightarrow> module_call \<Rightarrow> server list" where
  "appended m (AddServer s) = [s]"
| "appended m (RemoveServer s) = []"
| "appended m (CreateNode connect_ok cls) =
     (if local_connected m \<or> connect_ok then [local_server m] else [])"

fun adds_absent :: "dynamips \<Rightarrow> module_call list \<Rightarrow> bool" where
  "adds_absent m [] = True"
| "adds_absent m (c # cs) =
     (list_all (\<lambda>s. s \<notin> set (servers m)) (appended m c) \<and> adds_absent (call m c) cs)"

text \<open>A module as its constructor leaves it: no server yet, the local server not connected.\<close>

definition fresh_module :: dynamips where
  "fresh_module = \<lparr>settings = [(''path'', PStr ''dynamips'')], ios_images = [], servers = [],
     qstore = [], notifications = [], local_server = 0, local_connected = False\<rparr>"

subsection \<open>The image catalog in the settings store\<close>

text \<open>
  \<open>outside_images\<close> holds of the store's entries that are not in the \<open>IOS_images\<close>
  namespace; \<open>in_images\<close> and \<open>in_array\<close> say that a settings object has the group
  \<open>IOS_images\<close> open, and the array \<open>ios_image\<close> within it.
\<close>

definition outside_images :: "string \<times> pyval \<Rightarrow> bool" where
  "outside_images kv = (fst kv \<noteq> ''IOS_images'' \<and> \<not> startswith ''IOS_images/'' (fst kv))"

definition in_images :: "qsettings \<Rightarrow> bool" where
  "in_images q = (\<exists>gs. groupStack q = (''IOS_images'', 0) # gs)"

definition in_array :: "qsettings \<Rightarrow> bool" where
  "in_array q = (\<exists>g. groupStack q = [(''IOS_images'', 0), (''ios_image'', g)])"

text \<open>What a save writes, as a function of the catalog and the store it starts from.\<close>

definition written :: "(pyval dict) dict \<Rightarrow> pyval dict \<Rightarrow> pyval dict" where
  "written imgs st =
     store (write_images (map snd imgs) 0
       (beginWriteArray ''ios_image'' (int (length imgs))
          \<lparr>store = st, groupStack = [(''IOS_images'', 0)]\<rparr>))"

subsection \<open>Catalogs, nodes and replies used as examples\<close>

text \<open>
  A module without images and one whose catalog holds a record for the platform
  \<open>c3725\<close>; a \<open>C3725\<close> router node.
\<close>

definition empty_catalog_module :: dynamips where
  "empty_catalog_module = \<lparr>settings = [(''path'', PStr ''dynamips'')], ios_images = [], servers = [0],
     qstore = [], notifications = [], local_server = 0, local_connected = True\<rparr>"

definition c3725_record :: "pyval dict" where
  "c3725_record = [(''path'', PStr ''/images/c3725.image''), (''image'', PStr ''c3725.image''),
     (''startup-config'', PStr ''c3725.image''), (''platform'', PStr ''c3725''),
     (''chassis'', PStr ''''), (''idlepc'', PStr ''0x60a48814''), (''ram'', PInt 256),
     (''server'', PStr ''local'')]"

definition c3725_catalog_module :: dynamips where
  "c3725_catalog_module = empty_catalog_module\<lparr>ios_images := [(''local:c3725.image'', c3725_record)]\<rparr>"

definition c3725_node :: node where
  "c3725_node = \<lparr>node_cls = C3725, node_server = 0, node_settings = [(''platform'', PStr ''c3725'')]\<rparr>"

text \<open>
  An error reply as the transport delivers it (a code and a message), and one that
  also carries the keys of a success reply.
\<close>

definition error_reply :: "pyval dict" where
  "error_reply = [(''code'', PInt (-32603)), (''message'', PStr ''hypervisor not running'')]"

definition error_reply_with_id :: "pyval dict" where
  "error_reply_with_id = [(''code'', PInt (-32603)), (''message'', PStr ''hypervisor not running''),
      (''id'', PInt 7), (''name'', PStr ''FR1'')]"

subsection \<open>Switches used as examples, and the mapping sent with an NIO\<close>

text \<open>
  A provisioned switch with three ports, the second one bound, and a mapping of three
  entries; and a provisioned switch whose only mapping entry has port \<open>0\<close> as its
  destination.
\<close>

definition provisioned_switch :: frsw where
  "provisioned_switch =
     \<lparr>frsw_server = 0, frsw_id = PInt 7, ports = [0, 1, 2],
      fr_settings = \<lparr>s_name = PStr ''FR1'',
                      s_mapping = [(''0:101'', ''1:202''), (''2:303'', ''0:404''), (''1:500'', ''2:600'')]\<rparr>,
      heap = [\<lparr>port_name = ''0'', port_port = 0, port_nio = None\<rparr>,
              \<lparr>port_name = ''1'', port_port = 1, port_nio = Some (NIO_UDP 10003 ''127.0.0.1'' 10004)\<rparr>,
              \<lparr>port_name = ''2'', port_port = 2, port_nio = None\<rparr>],
      events = []\<rparr>"

definition destination_switch :: frsw where
  "destination_switch =
     \<lparr>frsw_server = 0, frsw_id = PInt 7, ports = [0],
      fr_settings = \<lparr>s_name = PStr ''FR1'', s_mapping = [(''1:101'', ''0:202'')]\<rparr>,
      heap = [\<lparr>port_name = ''0'', port_port = 0, port_nio = None\<rparr>],
      events = []\<rparr>"

text \<open>
  The entries of a mapping that touch the port named \<open>pname\<close>, each seen from that
  port: an entry with the port as source as it stands, an entry with the port as
  destination reversed. \<open>touching\<close> follows the spec's words instead: the mapping
  restricted to the entries where the port appears as source or as destination.
\<close>

definition oriented :: "string \<Rightarrow> string dict \<Rightarrow> string dict" where
  "oriented pname m =
     concat (map (\<lambda>(source, destination).
                    (if pname = split0 source then [(source, destination)] else []) @
                    (if pname = split0 destination then [(destination, source)] else [])) m)"

definition touching :: "string \<Rightarrow> string dict \<Rightarrow> string dict" where
  "touching pname m = filter (\<lambda>(source, destination). pname = split0 source \<or> pname = split0 destination) m"

subsection \<open>Ports and the labels of a mapping\<close>

text \<open>
  The endpoint labels of a mapping: the part before the first colon of every source
  and of every destination. \<open>bound_port h r\<close> says that the port at \<open>r\<close> in the store
  \<open>h\<close> carries an interface.
\<close>

definition mapping_labels :: "string dict \<Rightarrow> string set" where
  "mapping_labels m = split0 ` (fst ` set m \<union> snd ` set m)"

definition bound_port :: "port list \<Rightarrow> nat \<Rightarrow> bool" where
  "bound_port h r = (\<not> isFree (h ! r))"

text \<open>
  New settings that connect port \<open>1\<close> to port \<open>5\<close>; a switch whose bound port is named
  \<open>9\<close>, which those settings do not mention; and the switch that \<open>update\<close> makes of
  \<open>provisioned_switch\<close> under those settings.
\<close>

definition rebind_settings :: frsw_settings where
  "rebind_settings = \<lparr>s_name = PStr ''FR1'', s_mapping = [(''1:101'', ''5:202'')]\<rparr>"

definition stale_switch :: frsw where
  "stale_switch =
     \<lparr>frsw_server = 0, frsw_id = PInt 7, ports = [0, 1, 2],
      fr_settings = \<lparr>s_name = PStr ''FR1'', s_mapping = []\<rparr>,
      heap = [\<lparr>port_name = ''0'', port_port = 0, port_nio = None\<rparr>,
              \<lparr>port_name = ''9'', port_port = 9, port_nio = Some (NIO_UDP 10003 ''127.0.0.1'' 10004)\<rparr>,
              \<lparr>port_name = ''2'', port_port = 2, port_nio = None\<rparr>],
      events = []\<rparr>"

definition rebound_switch :: frsw where
  "rebound_switch =
     \<lparr>frsw_server = 0, frsw_id = PInt 7, ports = [1, 3],
      fr_settings = \<lparr>s_name = PStr ''FR1'', s_mapping = [(''1:101'', ''5:202'')]\<rparr>,
      heap = [\<lparr>port_name = ''0'', port_port = 0, port_nio = None\<rparr>,
              \<lparr>port_name = ''1'', port_port = 1, port_nio = Some (NIO_UDP 10003 ''127.0.0.1'' 10004)\<rparr>,
              \<lparr>port_name = ''2'', port_port = 2, port_nio = None\<rparr>,
              \<lparr>port_name = ''5'', port_port = 5, port_nio = None\<rparr>],
      events = []\<rparr>"

section \<open>Dynamips.setSettings\<close>

lemma changed_keys_Nil: "changed_keys cur [] = {}"
  by (simp add: changed_keys_def)

lemma changed_keys_Cons:
  "changed_keys cur ((k, v) # rest) =
     (if differs cur (k, v) then insert k (changed_keys cur rest) else changed_keys cur rest)"
  by (simp add: changed_keys_def)

lemma changed_keys_subset: "changed_keys cur new \<subseteq> fst ` set new"
  by (auto simp: changed_keys_def)

lemma changed_params_keys:
  "fst ` set new \<subseteq> fst ` set cur \<Longrightarrow>
   \<exists>p. changed_params cur new acc = Inr p \<and> fst ` set p = fst ` set acc \<union> changed_keys cur new"
proof (induction new arbitrary: acc)
  case Nil
  then show ?case by (simp add: changed_keys_Nil)
next
  case (Cons kv rest)
  obtain k v where kv: "kv = (k, v)" by (cases kv)
  from Cons.prems kv obtain c where c: "map_of cur k = Some c"
    by (metis (no_types, opaque_lifting) domD dom_map_of_conv_image_fst insert_subset list.simps(15) fst_conv image_insert)
  from Cons.prems have sub: "fst ` set rest \<subseteq> fst ` set cur" by auto
  show ?case
  proof (cases "py_eq c v")
    case True
    with c kv Cons.IH[OF sub, of acc] show ?thesis
      by (simp add: getitem_def changed_keys_Cons differs_def)
  next
    case False
    with c kv Cons.IH[OF sub, of "AList.update k v acc"] show ?thesis
      by (auto simp: getitem_def changed_keys_Cons differs_def dom_update)
  qed
qed

lemma changed_params_values:
  "distinct (map fst new) \<Longrightarrow> changed_params cur new acc = Inr p \<Longrightarrow>
   map_of p k = (if k \<in> changed_keys cur new then map_of new k else map_of acc k)"
proof (induction new arbitrary: acc)
  case Nil
  then show ?case by (simp add: changed_keys_Nil)
next
  case (Cons kv rest)
  obtain k' v where kv: "kv = (k', v)" by (cases kv)
  from Cons.prems kv have d: "distinct (map fst rest)" and notin: "k' \<notin> fst ` set rest" by auto
  from notin have notch: "k' \<notin> changed_keys cur rest"
    using changed_keys_subset by blast
  from notin have none: "map_of rest k' = None"
    by (simp add: map_of_eq_None_iff)
  from Cons.prems(2) kv obtain c where c: "map_of cur k' = Some c"
    by (auto simp: getitem_def split: option.splits)
  show ?case
  proof (cases "py_eq c v")
    case True
    with Cons.prems(2) kv c have "changed_params cur rest acc = Inr p"
      by (simp add: getitem_def)
    from Cons.IH[OF d this] True c kv notch none show ?thesis
      by (auto simp: changed_keys_Cons differs_def)
  next
    case False
    with Cons.prems(2) kv c have "changed_params cur rest (AList.update k' v acc) = Inr p"
      by (simp add: getitem_def)
    from Cons.IH[OF d this] False c kv notch none show ?thesis
      by (auto simp: changed_keys_Cons differs_def update_conv')
  qed
qed

lemma notifications_fold_send:
  "fold (\<lambda>server. send_notification server method params) ss m =
   m\<lparr>notifications := notifications m @ map (\<lambda>server. (server, method, params)) ss\<rparr>"
  by (induction ss arbitrary: m) (simp_all add: send_notification_def)

lemma map_of_dict_update:
  "distinct (map fst other) \<Longrightarrow> map_of (dict_update d other) = map_of d ++ map_of other"
proof (induction other arbitrary: d)
  case Nil
  then show ?case by (simp add: dict_update_def)
next
  case (Cons kv rest)
  obtain k v where kv: "kv = (k, v)" by (cases kv)
  from Cons.prems kv have d: "distinct (map fst rest)" and notin: "k \<notin> fst ` set rest" by auto
  from notin have none: "map_of rest k = None" by (simp add: map_of_eq_None_iff)
  have "map_of (dict_update d (kv # rest)) = map_of (dict_update (AList.update k v d) rest)"
    by (simp add: dict_update_def kv)
  also have "\<dots> = (map_of d)(k \<mapsto> v) ++ map_of rest"
    by (simp only: Cons.IH[OF d] update_conv')
  also have "\<dots> = map_of d ++ map_of (kv # rest)"
    using none by (auto simp: kv map_add_def fun_eq_iff split: option.splits)
  finally show ?case .
qed

lemma saveSettings_fields:
  "settings (saveSettings m) = settings m" "servers (saveSettings m) = servers m"
  "notifications (saveSettings m) = notifications m"
  by (simp_all add: saveSettings_def Let_def)

lemma sent_replicate:
  "map snd (filter (\<lambda>e. fst e = s) (map (\<lambda>server. (server, a)) ss)) = replicate (count_list ss s) a"
  by (induction ss) simp_all

text \<open>
  Claim C1, as amended. When the module's settings hold every key of the new settings,
  \<open>setSettings\<close> returns normally and: the payload \<open>params\<close> has exactly the keys whose new
  value differs from the current one (under Python's \<open>!=\<close>), each with its new value,
  never the whole settings; if some key differs, one notification with that payload goes
  out per entry of the server list, in list order, so a server receives as many as the
  list names it (exactly one where the list names it once); if no key differs, nothing
  is sent; and afterwards the settings are the prior settings updated with the new ones.
\<close>

theorem setSettings_propagates_changes:
  assumes "distinct (map fst new_settings)"
      and "fst ` set new_settings \<subseteq> fst ` set (settings m)"
  shows "\<exists>m' params. setSettings m new_settings = Inr m'
           \<and> fst ` set params = changed_keys (settings m) new_settings
           \<and> (\<forall>k \<in> changed_keys (settings m) new_settings. map_of params k = map_of new_settings k)
           \<and> notifications m' = notifications m @
                (if changed_keys (settings m) new_settings = {} then []
                 else map (\<lambda>server. (server, ''dynamips.settings'', params)) (servers m))
           \<and> (\<forall>s. sent_to m m' s =
                (if changed_keys (settings m) new_settings = {} then []
                 else replicate (count_list (servers m) s) (''dynamips.settings'', params)))
           \<and> map_of (settings m') = map_of (settings m) ++ map_of new_settings
           \<and> servers m' = servers m"
proof -
  from changed_params_keys[OF assms(2), of "[]"] obtain params
    where run: "changed_params (settings m) new_settings [] = Inr params"
      and keys: "fst ` set params = changed_keys (settings m) new_settings"
    by auto
  have empty: "params = [] \<longleftrightarrow> changed_keys (settings m) new_settings = {}"
    using keys by auto
  define m1 where "m1 = (if params \<noteq> []
      then fold (\<lambda>server. send_notification server ''dynamips.settings'' params) (servers m) m
      else m)"
  define m' where "m' = saveSettings (m1\<lparr>settings := dict_update (settings m1) new_settings\<rparr>)"
  have res: "setSettings m new_settings = Inr m'"
    by (simp add: setSettings_def run m'_def m1_def Let_def)
  have m1_notes: "notifications m1 = notifications m @
      (if params = [] then [] else map (\<lambda>server. (server, ''dynamips.settings'', params)) (servers m))"
    by (simp add: m1_def notifications_fold_send)
  have m1_same: "settings m1 = settings m" "servers m1 = servers m"
    by (simp_all add: m1_def notifications_fold_send)
  have notif: "notifications m' = notifications m @
      (if changed_keys (settings m) new_settings = {} then []
       else map (\<lambda>server. (server, ''dynamips.settings'', params)) (servers m))"
    using m1_notes empty by (simp add: m'_def saveSettings_fields)
  have vals: "\<forall>k \<in> changed_keys (settings m) new_settings. map_of params k = map_of new_settings k"
    using changed_params_values[OF assms(1) run] by simp
  have sent: "\<forall>s. sent_to m m' s =
      (if changed_keys (settings m) new_settings = {} then []
       else replicate (count_list (servers m) s) (''dynamips.settings'', params))"
    by (simp add: sent_to_def notif sent_replicate)
  have sett: "map_of (settings m') = map_of (settings m) ++ map_of new_settings"
    by (simp add: m'_def saveSettings_fields m1_same map_of_dict_update[OF assms(1)])
  have srv: "servers m' = servers m"
    by (simp add: m'_def saveSettings_fields m1_same)
  from res keys vals notif sent sett srv show ?thesis by blast
qed

theorem setSettings_propagates_changes_witness:
  "distinct (map fst two_server_new)
   \<and> fst ` set two_server_new \<subseteq> fst ` set (settings two_server_module)
   \<and> changed_keys (settings two_server_module) two_server_new = {''base_udp_port''}
   \<and> (\<exists>m' params. setSettings two_server_module two_server_new = Inr m'
           \<and> fst ` set params = changed_keys (settings two_server_module) two_server_new
           \<and> (\<forall>k \<in> changed_keys (settings two_server_module) two_server_new. map_of params k = map_of two_server_new k)
           \<and> notifications m' = notifications two_server_module @
                (if changed_keys (settings two_server_module) two_server_new = {} then []
                 else map (\<lambda>server. (server, ''dynamips.settings'', params)) (servers two_server_module))
           \<and> (\<forall>s. sent_to two_server_module m' s =
                (if changed_keys (settings two_server_module) two_server_new = {} then []
                 else replicate (count_list (servers two_server_module) s) (''dynamips.settings'', params)))
           \<and> map_of (settings m') = map_of (settings two_server_module) ++ map_of two_server_new
           \<and> servers m' = servers two_server_module)"
proof -
  have h1: "distinct (map fst two_server_new)" by (simp add: two_server_new_def)
  have h2: "fst ` set two_server_new \<subseteq> fst ` set (settings two_server_module)"
    by (simp add: two_server_new_def two_server_module_def)
  have h3: "changed_keys (settings two_server_module) two_server_new = {''base_udp_port''}"
    by (simp add: changed_keys_def differs_def two_server_new_def two_server_module_def)
  from setSettings_propagates_changes[OF h1 h2] h1 h2 h3 show ?thesis by blast
qed

text \<open>
  Claim C1 as stated asks for exactly one notification to each server of the list. On
  the list \<open>[0, 0]\<close> server \<open>0\<close> receives two.
\<close>

theorem setSettings_duplicate_server_counterexample:
  "setSettings twice_module twice_new = Inr twice_after
   \<and> 0 \<in> set (servers twice_module)
   \<and> length (sent_to twice_module twice_after 0) = 2"
  by (simp add: setSettings_def twice_module_def twice_new_def twice_after_def sent_to_def
      getitem_def send_notification_def dict_update_def saveSettings_def QSettings_def
      beginGroup_def endGroup_def setValue_def groupPrefix_def group_toString_def Let_def)

section \<open>The server list of the module\<close>

lemma servers_call:
  "servers (call m c) =
     (case c of RemoveServer s \<Rightarrow> remove1 s (servers m) | _ \<Rightarrow> servers m @ appended m c)"
  by (cases c)
     (auto simp: addServer_def send_notification_def removeServer_def list_remove_def state_of_def
       createNode_def Let_def remove1_idem)

lemma distinct_call:
  "distinct (servers m) \<Longrightarrow> list_all (\<lambda>s. s \<notin> set (servers m)) (appended m c) \<Longrightarrow>
   distinct (servers (call m c))"
  unfolding servers_call by (cases c) auto

text \<open>
  Claim C9, as amended. \<open>addServer\<close> appends the server it is given, and \<open>createNode\<close>
  the local server, without looking whether the list holds it already. So the server
  list of a module that started fresh stays free of duplicates along every sequence of
  \<open>addServer\<close>, \<open>removeServer\<close> and \<open>createNode\<close> calls in which no call appends a
  server that the list holds at that moment.
\<close>

theorem servers_distinct_when_adds_absent:
  assumes "servers m = []" and "adds_absent m cs"
  shows "distinct (servers (run m cs))"
proof -
  have "distinct (servers m) \<Longrightarrow> adds_absent m cs \<Longrightarrow> distinct (servers (run m cs))"
  proof (induction cs arbitrary: m)
    case Nil
    then show ?case by simp
  next
    case (Cons c cs)
    from Cons.prems have "distinct (servers (call m c))" and "adds_absent (call m c) cs"
      by (simp_all add: distinct_call)
    from Cons.IH[OF this] show ?case by simp
  qed
  with assms show ?thesis by simp
qed

theorem servers_distinct_when_adds_absent_witness:
  "servers fresh_module = []
   \<and> adds_absent fresh_module [CreateNode True C2691, AddServer 5, RemoveServer 0, CreateNode False FrameRelaySwitch]
   \<and> servers (run fresh_module [CreateNode True C2691, AddServer 5, RemoveServer 0, CreateNode False FrameRelaySwitch]) = [5, 0]
   \<and> distinct (servers (run fresh_module [CreateNode True C2691, AddServer 5, RemoveServer 0, CreateNode False FrameRelaySwitch]))"
proof -
  have h1: "servers fresh_module = []" by (simp add: fresh_module_def)
  have h2: "adds_absent fresh_module [CreateNode True C2691, AddServer 5, RemoveServer 0, CreateNode False FrameRelaySwitch]"
    by (simp add: fresh_module_def servers_call createNode_def addServer_def send_notification_def
      removeServer_def list_remove_def state_of_def Let_def)
  have h3: "servers (run fresh_module [CreateNode True C2691, AddServer 5, RemoveServer 0, CreateNode False FrameRelaySwitch]) = [5, 0]"
    by (simp add: fresh_module_def servers_call createNode_def addServer_def send_notification_def
      removeServer_def list_remove_def state_of_def Let_def)
  from servers_distinct_when_adds_absent[OF h1 h2] h1 h2 h3 show ?thesis by blast
qed

text \<open>
  Claim C9 as stated fails: two \<open>createNode\<close> calls on a fresh module list the local
  server twice.
\<close>

theorem servers_duplicate_counterexample:
  "servers fresh_module = []
   \<and> servers (run fresh_module [CreateNode True C2691, CreateNode True FrameRelaySwitch]) = [0, 0]
   \<and> \<not> distinct (servers (run fresh_module [CreateNode True C2691, CreateNode True FrameRelaySwitch]))"
  by (simp add: fresh_module_def createNode_def addServer_def send_notification_def Let_def)

section \<open>Saving the image catalog\<close>

lemma startswith_append: "startswith p (p @ s)"
  by (induction p) simp_all

lemma filter_update_outside:
  "\<not> P (k, v) \<Longrightarrow> (\<And>v v'. P (k, v) = P (k, v')) \<Longrightarrow> filter P (AList.update k v st) = filter P st"
proof (induction st)
  case Nil
  then show ?case by simp
next
  case (Cons kv st)
  obtain k' v' where kv: "kv = (k', v')" by (cases kv)
  show ?case
  proof (cases "k' = k")
    case True
    with Cons.prems kv have "\<not> P (k', v')" by metis
    with True kv Cons.prems(1) show ?thesis by simp
  next
    case False
    with kv Cons show ?thesis by simp
  qed
qed

lemma in_images_prefix:
  "in_images q \<Longrightarrow> \<exists>rest. groupPrefix q = ''IOS_images/'' @ rest"
  by (auto simp: in_images_def groupPrefix_def group_toString_def)

lemma setValue_outside:
  assumes "in_images q"
  shows "filter outside_images (store (setValue k v q)) = filter outside_images (store q)"
    and "groupStack (setValue k v q) = groupStack q"
proof -
  from in_images_prefix[OF assms] obtain rest where p: "groupPrefix q = ''IOS_images/'' @ rest"
    by blast
  have "startswith ''IOS_images/'' (groupPrefix q @ k)"
    unfolding p using startswith_append[of "''IOS_images/''" "rest @ k"] by simp
  then have "\<not> outside_images (groupPrefix q @ k, v)"
    by (simp add: outside_images_def)
  then show "filter outside_images (store (setValue k v q)) = filter outside_images (store q)"
    by (simp add: setValue_def filter_update_outside outside_images_def)
  show "groupStack (setValue k v q) = groupStack q" by (simp add: setValue_def)
qed

lemma setValue_in_images: "in_images q \<Longrightarrow> in_images (setValue k v q)"
  by (simp add: in_images_def setValue_def)

lemma fold_setValue_outside:
  "in_images q \<Longrightarrow>
   filter outside_images (store (fold (\<lambda>(name, v). setValue name v) items q)) = filter outside_images (store q)
   \<and> groupStack (fold (\<lambda>(name, v). setValue name v) items q) = groupStack q"
proof (induction items arbitrary: q)
  case Nil
  then show ?case by simp
next
  case (Cons kv items)
  obtain k v where kv: "kv = (k, v)" by (cases kv)
  from Cons.IH[OF setValue_in_images[OF Cons.prems], of k v] setValue_outside[OF Cons.prems, of k v] kv
  show ?case by simp
qed

lemma in_array_in_images: "in_array q \<Longrightarrow> in_images q"
  by (auto simp: in_array_def in_images_def)

lemma setArrayIndex_in_array:
  "in_array q \<Longrightarrow> in_array (setArrayIndex i q) \<and> store (setArrayIndex i q) = store q"
  by (auto simp: in_array_def setArrayIndex_def)

lemma write_images_outside:
  "in_array q \<Longrightarrow>
   filter outside_images (store (write_images imgs i q)) = filter outside_images (store q)
   \<and> in_array (write_images imgs i q)"
proof (induction imgs arbitrary: i q)
  case Nil
  then show ?case by simp
next
  case (Cons img imgs)
  let ?q1 = "setArrayIndex i q"
  let ?q2 = "fold (\<lambda>(name, v). setValue name v) img ?q1"
  from setArrayIndex_in_array[OF Cons.prems, of i]
  have a1: "in_array ?q1" and s1: "store ?q1 = store q" by simp_all
  from fold_setValue_outside[OF in_array_in_images[OF a1], of img]
  have s2: "filter outside_images (store ?q2) = filter outside_images (store ?q1)"
    and g2: "groupStack ?q2 = groupStack ?q1" by simp_all
  from a1 g2 have a2: "in_array ?q2" by (simp add: in_array_def)
  from Cons.IH[OF a2, of "i + 1"] s2 s1 show ?case by simp
qed

lemma saveIOSImages_written:
  "saveIOSImages m = m\<lparr>qstore := written (ios_images m) (filter outside_images (qstore m))\<rparr>"
proof -
  have "(\<lambda>(k', v). k' \<noteq> ''IOS_images'' \<and> \<not> startswith ''IOS_images/'' k') = outside_images"
    by (auto simp: outside_images_def fun_eq_iff)
  then show ?thesis
    by (simp add: saveIOSImages_def written_def QSettings_def beginGroup_def qremove_def
        groupPrefix_def group_toString_def endArray_def endGroup_def Let_def)
qed

lemma written_outside:
  "filter outside_images (written imgs st) = filter outside_images st"
proof -
  define q0 where "q0 = \<lparr>store = st, groupStack = [(''IOS_images'', 0), (''ios_image'', 0)]\<rparr>"
  define q where "q = setValue ''size'' (PInt (int (length imgs))) q0"
  have w: "written imgs st = store (write_images (map snd imgs) 0 q)"
    by (simp add: written_def beginWriteArray_def q_def q0_def)
  have a0: "in_array q0" by (simp add: in_array_def q0_def)
  from setValue_outside[OF in_array_in_images[OF a0], of "''size''" "PInt (int (length imgs))"]
  have s: "filter outside_images (store q) = filter outside_images st"
    and g: "groupStack q = groupStack q0" by (simp_all add: q_def q0_def)
  from g a0 have "in_array q" by (simp add: in_array_def)
  from write_images_outside[OF this, of "map snd imgs" 0] s show ?thesis
    by (simp add: w)
qed

text \<open>
  Claim C8. Saving the image catalog is idempotent: saving twice in succession leaves
  the module, and with it the persisted store, as saving once does (for
  \<open>_saveIOSImages\<close> and for \<open>setIOSImages\<close> with the same catalog). The reason is that a
  save first clears the \<open>IOS_images\<close> namespace: saving over a store from which that
  namespace has been removed gives the same result as saving over the store itself.
\<close>

theorem saveIOSImages_idempotent:
  "saveIOSImages (saveIOSImages m) = saveIOSImages m
   \<and> setIOSImages (setIOSImages m imgs) imgs = setIOSImages m imgs
   \<and> saveIOSImages (m\<lparr>qstore := store (qremove [] (beginGroup ''IOS_images'' (QSettings (qstore m))))\<rparr>)
       = saveIOSImages m"
proof -
  have cleared: "store (qremove [] (beginGroup ''IOS_images'' (QSettings (qstore m))))
      = filter outside_images (qstore m)"
  proof -
    have "(\<lambda>(k', v). k' \<noteq> ''IOS_images'' \<and> \<not> startswith ''IOS_images/'' k') = outside_images"
      by (auto simp: outside_images_def fun_eq_iff)
    then show ?thesis
      by (simp add: QSettings_def beginGroup_def qremove_def groupPrefix_def group_toString_def Let_def)
  qed
  have "saveIOSImages (saveIOSImages m) = saveIOSImages m"
    by (simp add: saveIOSImages_written written_outside)
  moreover have "saveIOSImages (m\<lparr>qstore := store (qremove [] (beginGroup ''IOS_images'' (QSettings (qstore m))))\<rparr>)
       = saveIOSImages m"
    unfolding cleared by (simp add: saveIOSImages_written)
  moreover have "setIOSImages (setIOSImages m imgs) imgs = setIOSImages m imgs"
    by (simp add: setIOSImages_def saveIOSImages_written written_outside)
  ultimately show ?thesis by simp
qed

section \<open>Dynamips.setupNode and FrameRelaySwitch.setupCallback\<close>

text \<open>
  Claim C4 does not hold of the code. \<open>setupNode\<close> looks the image up and then does
  not use it: for a router it always calls \<open>setup\<close> with one fixed path and 128. With
  an empty catalog the lookup finds nothing and \<open>setup\<close> still gets that path; with a
  catalog whose record for the platform has another path and 256 as its memory size,
  the lookup finds the record and \<open>setup\<close> gets the fixed path and 128 all the same.
\<close>

theorem setupNode_hardcoded_image:
  "allocateIOSImage empty_catalog_module c3725_node = Inr None
   \<and> setupNode empty_catalog_module c3725_node =
       Inr (Setup [PStr ''/home/grossmj/Documents/IOS images/c3725-adventerprisek9-mz.124-15.T14.image'', PInt 128])
   \<and> allocateIOSImage c3725_catalog_module c3725_node = Inr (Some c3725_record)
   \<and> getitem c3725_record ''path'' = Inr (PStr ''/images/c3725.image'')
   \<and> getitem c3725_record ''ram'' = Inr (PInt 256)
   \<and> setupNode c3725_catalog_module c3725_node =
       Inr (Setup [PStr ''/home/grossmj/Documents/IOS images/c3725-adventerprisek9-mz.124-15.T14.image'', PInt 128])"
  by (simp add: setupNode_def allocateIOSImage_def empty_catalog_module_def c3725_catalog_module_def
      c3725_node_def c3725_record_def getitem_def isinstance_Router_def)

text \<open>
  Claim C3 does not hold of the code. \<open>setupCallback\<close> never reads its error flag. On
  an error reply that carries a code and a message it raises \<open>KeyError\<close> and emits
  nothing (the switch stays unprovisioned); on an error reply that also carries an id
  and a name it provisions the switch and announces the name.
\<close>

theorem setupCallback_ignores_error_flag:
  "frsw_id (new_FrameRelaySwitch 0) = PNone
   \<and> setupCallback (new_FrameRelaySwitch 0) error_reply True = Inl (KeyError, new_FrameRelaySwitch 0)
   \<and> setupCallback (new_FrameRelaySwitch 0) error_reply_with_id True =
       Inr ((new_FrameRelaySwitch 0)\<lparr>frsw_id := PInt 7,
              fr_settings := \<lparr>s_name = PStr ''FR1'', s_mapping = []\<rparr>,
              events := [Emit (Newname_signal (PStr ''FR1''))]\<rparr>)"
  by (simp add: setupCallback_def new_FrameRelaySwitch_def error_reply_def error_reply_with_id_def
      getitem_def emit_def Let_def)

section \<open>Deleting a switch, attaching and detaching an NIO\<close>

text \<open>
  Claim C5. \<open>delete\<close> first emits the signal that tears the links down and then sends
  the destroy message, whose payload is the remote id of the switch. The callback emits
  the deleted signal on a success reply; on an error reply with a code and a message it
  emits the error signal with the name of the switch, that code and that message.
  Whatever the reply, the remote id of the switch stays what it was.
\<close>

theorem delete_notifies_then_sends:
  "delete n = n\<lparr>events := events n @
       [Emit Delete_links_signal,
        Send_message (frsw_server n) ''dynamips.frsw.delete'' (Some [(''id'', Val (frsw_id n))]) DeleteCallback]\<rparr>
   \<and> deleteCallback n' result False = Inr (n'\<lparr>events := events n' @ [Emit Delete_signal]\<rparr>)
   \<and> (getitem result ''code'' = Inr code \<and> getitem result ''message'' = Inr message \<longrightarrow>
        deleteCallback n' result True =
          Inr (n'\<lparr>events := events n' @ [Emit (Error_signal (s_name (fr_settings n')) code message)]\<rparr>))
   \<and> frsw_id (state_of (deleteCallback n' result error)) = frsw_id n'"
  by (auto simp: delete_def deleteCallback_def send_message_def emit_def state_of_def
      split: sum.splits)

theorem delete_notifies_then_sends_witness:
  "getitem error_reply ''code'' = Inr (PInt (-32603))
   \<and> getitem error_reply ''message'' = Inr (PStr ''hypervisor not running'')
   \<and> deleteCallback provisioned_switch error_reply True =
        Inr (provisioned_switch\<lparr>events := events provisioned_switch @
           [Emit (Error_signal (s_name (fr_settings provisioned_switch)) (PInt (-32603)) (PStr ''hypervisor not running''))]\<rparr>)
   \<and> frsw_id (state_of (deleteCallback provisioned_switch error_reply True)) = PInt 7"
proof -
  have h1: "getitem error_reply ''code'' = Inr (PInt (-32603))"
    by (simp add: getitem_def error_reply_def)
  have h2: "getitem error_reply ''message'' = Inr (PStr ''hypervisor not running'')"
    by (simp add: getitem_def error_reply_def)
  have h3: "frsw_id provisioned_switch = PInt 7" by (simp add: provisioned_switch_def)
  from delete_notifies_then_sends[of provisioned_switch provisioned_switch error_reply
      "PInt (-32603)" "PStr ''hypervisor not running''" True] h1 h2 h3
  show ?thesis by (simp add: state_of_def)
qed

text \<open>
  Claim C7. \<open>deleteNIO\<close> on a port of the store has exactly two effects, in this
  order: first the assignment \<open>port.nio = None\<close> to that port, then one request,
  \<open>dynamips.frsw.delete_nio\<close>, whose payload is the remote id of the switch and the
  number of the port. So the port is already free when the request is sent, and it is
  free afterwards; the ports list and the settings of the switch stay as they were.
\<close>

theorem deleteNIO_detaches_then_sends:
  assumes "r < length (heap n)"
  shows "events (deleteNIO n r) = events n @
           [Assign_nio r None,
            Send_message (frsw_server n) ''dynamips.frsw.delete_nio''
              (Some [(''id'', Val (frsw_id n)), (''port'', Val (PInt (port_port (heap n ! r))))])
              DeleteNIOCallback]
         \<and> heap (deleteNIO n r) = (heap n)[r := (heap n ! r)\<lparr>port_nio := None\<rparr>]
         \<and> isFree (heap (deleteNIO n r) ! r)
         \<and> ports (deleteNIO n r) = ports n
         \<and> fr_settings (deleteNIO n r) = fr_settings n
         \<and> frsw_id (deleteNIO n r) = frsw_id n"
  using assms by (simp add: deleteNIO_def assign_nio_def send_message_def isFree_def Let_def)

theorem deleteNIO_detaches_then_sends_witness:
  "(1::nat) < length (heap provisioned_switch)
   \<and> \<not> isFree (heap provisioned_switch ! 1)
   \<and> isFree (heap (deleteNIO provisioned_switch 1) ! 1)
   \<and> events (deleteNIO provisioned_switch 1) =
       [Assign_nio 1 None,
        Send_message 0 ''dynamips.frsw.delete_nio'' (Some [(''id'', Val (PInt 7)), (''port'', Val (PInt 1))])
          DeleteNIOCallback]"
proof -
  have h: "(1::nat) < length (heap provisioned_switch)" by (simp add: provisioned_switch_def)
  have f: "\<not> isFree (heap provisioned_switch ! 1)" by (simp add: provisioned_switch_def isFree_def)
  note t = deleteNIO_detaches_then_sends[OF h]
  from t have e: "events (deleteNIO provisioned_switch 1) = events provisioned_switch @
      [Assign_nio 1 None,
       Send_message (frsw_server provisioned_switch) ''dynamips.frsw.delete_nio''
         (Some [(''id'', Val (frsw_id provisioned_switch)),
                (''port'', Val (PInt (port_port (heap provisioned_switch ! 1))))])
         DeleteNIOCallback]"
    by (rule conjunct1)
  from t have fr: "isFree (heap (deleteNIO provisioned_switch 1) ! 1)" by blast
  have v: "events provisioned_switch = [] \<and> frsw_server provisioned_switch = 0
      \<and> frsw_id provisioned_switch = PInt 7 \<and> port_port (heap provisioned_switch ! 1) = 1"
    by (simp add: provisioned_switch_def)
  from e v fr h f show ?thesis by simp
qed

lemma map_of_fold_update:
  "map_of (fold (\<lambda>(k, v). AList.update k v) xs acc) = map_of acc ++ map_of (rev xs)"
proof (induction xs arbitrary: acc)
  case Nil
  then show ?case by simp
next
  case (Cons kv xs)
  obtain k v where kv: "kv = (k, v)" by (cases kv)
  have "map_of (fold (\<lambda>(k, v). AList.update k v) (kv # xs) acc)
      = map_of (AList.update k v acc) ++ map_of (rev xs)"
    by (simp add: kv Cons.IH)
  also have "\<dots> = (map_of acc)(k \<mapsto> v) ++ map_of (rev xs)"
    by (simp only: update_conv')
  also have "\<dots> = map_of acc ++ map_of (rev (kv # xs))"
    by (simp add: kv map_add_def fun_eq_iff split: option.splits)
  finally show ?case .
qed

lemma nio_mapping_fold:
  "nio_mapping pname m acc = fold (\<lambda>(k, v). AList.update k v) (oriented pname m) acc"
  by (induction pname m acc rule: nio_mapping.induct) (simp_all add: oriented_def Let_def)

lemma distinct_fold_update:
  "distinct (map fst acc) \<Longrightarrow> distinct (map fst (fold (\<lambda>(k, v). AList.update k v) xs acc))"
  by (induction xs arbitrary: acc) (auto simp: distinct_update)

lemma keys_fold_update:
  "fst ` set (fold (\<lambda>(k, v). AList.update k v) xs acc) = fst ` set acc \<union> fst ` set xs"
proof (induction xs arbitrary: acc)
  case Nil
  then show ?case by simp
next
  case (Cons kv xs)
  obtain k v where kv: "kv = (k, v)" by (cases kv)
  have "fst ` set (fold (\<lambda>(k, v). AList.update k v) (kv # xs) acc)
      = fst ` set (AList.update k v acc) \<union> fst ` set xs"
    by (simp add: kv Cons.IH)
  also have "\<dots> = ({k} \<union> fst ` set acc) \<union> fst ` set xs"
    by (simp only: dom_update)
  also have "\<dots> = fst ` set acc \<union> fst ` set (kv # xs)"
    by (auto simp: kv)
  finally show ?case .
qed

lemma oriented_keys: "k \<in> fst ` set (oriented pname m) \<Longrightarrow> split0 k = pname"
  by (auto simp: oriented_def split: if_splits)

text \<open>
  Claim C6, as amended. \<open>addNIO\<close> with a UDP NIO sends exactly one request. Its payload
  holds the remote id of the switch, the NIO kind, the number of the port, the NIO's
  \<open>lport\<close>, \<open>rhost\<close> and \<open>rport\<close>, and a mapping built from the current entries that
  touch the port: an entry whose source is on the port goes in as it stands, an entry
  whose destination is on the port goes in reversed (destination to source), a later
  entry replacing an earlier one on the same key. Every key of that mapping is an
  endpoint on the port.
\<close>

theorem addNIO_request:
  "addNIO n r (NIO_UDP lport rhost rport) =
     Inr (n\<lparr>events := events n @
       [Send_message (frsw_server n) ''dynamips.frsw.add_nio''
          (Some [(''id'', Val (frsw_id n)),
                 (''nio'', Val (PStr ''NIO_UDP'')),
                 (''port'', Val (PInt (port_port (heap n ! r)))),
                 (''lport'', Val (PInt lport)),
                 (''rhost'', Val (PStr rhost)),
                 (''rport'', Val (PInt rport)),
                 (''mapping'', Dict (nio_mapping (port_name (heap n ! r)) (s_mapping (fr_settings n)) []))])
          AddNIOCallback]\<rparr>)
   \<and> map_of (nio_mapping (port_name (heap n ! r)) (s_mapping (fr_settings n)) [])
       = map_of (rev (oriented (port_name (heap n ! r)) (s_mapping (fr_settings n))))
   \<and> distinct (map fst (nio_mapping (port_name (heap n ! r)) (s_mapping (fr_settings n)) []))
   \<and> (\<forall>k \<in> fst ` set (nio_mapping (port_name (heap n ! r)) (s_mapping (fr_settings n)) []).
         split0 k = port_name (heap n ! r))"
proof -
  have "\<forall>k \<in> fst ` set (nio_mapping (port_name (heap n ! r)) (s_mapping (fr_settings n)) []).
         split0 k = port_name (heap n ! r)"
    using oriented_keys by (auto simp: nio_mapping_fold keys_fold_update)
  then show ?thesis
    by (simp add: addNIO_def send_message_def Let_def nio_mapping_fold map_of_fold_update
        distinct_fold_update)
qed

theorem addNIO_request_witness:
  "addNIO provisioned_switch 0 (NIO_UDP 10001 ''127.0.0.1'' 10002) =
     Inr (provisioned_switch\<lparr>events :=
       [Send_message 0 ''dynamips.frsw.add_nio''
          (Some [(''id'', Val (PInt 7)),
                 (''nio'', Val (PStr ''NIO_UDP'')),
                 (''port'', Val (PInt 0)),
                 (''lport'', Val (PInt 10001)),
                 (''rhost'', Val (PStr ''127.0.0.1'')),
                 (''rport'', Val (PInt 10002)),
                 (''mapping'', Dict [(''0:101'', ''1:202''), (''0:404'', ''2:303'')])])
          AddNIOCallback]\<rparr>)
   \<and> oriented ''0'' (s_mapping (fr_settings provisioned_switch)) = [(''0:101'', ''1:202''), (''0:404'', ''2:303'')]"
proof -
  have m: "nio_mapping ''0'' [(''0:101'', ''1:202''), (''2:303'', ''0:404''), (''1:500'', ''2:600'')] []
      = [(''0:101'', ''1:202''), (''0:404'', ''2:303'')]"
    by (simp add: split0_def Let_def)
  have o: "oriented ''0'' (s_mapping (fr_settings provisioned_switch)) = [(''0:101'', ''1:202''), (''0:404'', ''2:303'')]"
    by (simp add: oriented_def provisioned_switch_def split0_def)
  from addNIO_request[of provisioned_switch 0 10001 "''127.0.0.1''" 10002] m o
  show ?thesis by (simp add: provisioned_switch_def)
qed

text \<open>
  Claim C6 as stated fails where the port is the destination of an entry: the mapping
  sent holds the reversed entry, which the restriction of the current mapping to the
  entries touching the port does not.
\<close>

theorem addNIO_reverses_counterexample:
  "addNIO destination_switch 0 (NIO_UDP 10001 ''127.0.0.1'' 10002) =
     Inr (destination_switch\<lparr>events :=
       [Send_message 0 ''dynamips.frsw.add_nio''
          (Some [(''id'', Val (PInt 7)),
                 (''nio'', Val (PStr ''NIO_UDP'')),
                 (''port'', Val (PInt 0)),
                 (''lport'', Val (PInt 10001)),
                 (''rhost'', Val (PStr ''127.0.0.1'')),
                 (''rport'', Val (PInt 10002)),
                 (''mapping'', Dict [(''0:202'', ''1:101'')])])
          AddNIOCallback]\<rparr>)
   \<and> touching ''0'' (s_mapping (fr_settings destination_switch)) = [(''1:101'', ''0:202'')]
   \<and> map_of [(''0:202'', ''1:101'')] \<noteq> map_of (touching ''0'' (s_mapping (fr_settings destination_switch)))"
proof -
  have t: "touching ''0'' (s_mapping (fr_settings destination_switch)) = [(''1:101'', ''0:202'')]"
    by (simp add: touching_def destination_switch_def split0_def)
  have "map_of [(''0:202'', ''1:101'')] ''1:101'' \<noteq> map_of [(''1:101'', ''0:202'')] ''1:101''"
    by simp
  then have ne: "map_of [(''0:202'', ''1:101'')] \<noteq> map_of [(''1:101'', ''0:202'')]"
    by metis
  have a: "addNIO destination_switch 0 (NIO_UDP 10001 ''127.0.0.1'' 10002) =
     Inr (destination_switch\<lparr>events :=
       [Send_message 0 ''dynamips.frsw.add_nio''
          (Some [(''id'', Val (PInt 7)),
                 (''nio'', Val (PStr ''NIO_UDP'')),
                 (''port'', Val (PInt 0)),
                 (''lport'', Val (PInt 10001)),
                 (''rhost'', Val (PStr ''127.0.0.1'')),
                 (''rport'', Val (PInt 10002)),
                 (''mapping'', Dict [(''0:202'', ''1:101'')])])
          AddNIOCallback]\<rparr>)"
    by (simp add: addNIO_def destination_switch_def send_message_def split0_def Let_def)
  from a t ne show ?thesis by simp
qed

section \<open>FrameRelaySwitch.update\<close>

lemma collect_ports_set:
  "set (collect_ports m acc) = set acc \<union> mapping_labels m"
proof (induction m acc rule: collect_ports.induct)
  case (1 acc)
  then show ?case by (simp add: mapping_labels_def)
next
  case (2 source destination rest acc)
  then show ?case
    by (auto simp: mapping_labels_def Let_def)
qed

lemma reconcile_ports_returns:
  assumes "\<forall>x \<in> set pre. bound_port h x"
      and "reconcile_ports h rs (pre @ rs) ptc = Inr (ps', ptc')"
  shows "ps' = pre @ filter (bound_port h) rs
         \<and> (\<forall>l \<in> set ptc. l \<in> set ptc' \<or> (\<exists>r \<in> set rs. bound_port h r \<and> port_name (h ! r) = l))"
  using assms
proof (induction rs arbitrary: pre ptc)
  case Nil
  then show ?case by simp
next
  case (Cons r rs)
  show ?case
  proof (cases "isFree (h ! r)")
    case True
    with Cons.prems(1) have "r \<notin> set pre" by (auto simp: bound_port_def)
    then have rm: "list_remove r (pre @ r # rs) = Some (pre @ rs)"
      by (simp add: list_remove_def remove1_append)
    from Cons.prems(2) True rm have "reconcile_ports h rs (pre @ rs) ptc = Inr (ps', ptc')"
      by simp
    from Cons.IH[OF Cons.prems(1) this] True show ?thesis
      by (auto simp: bound_port_def)
  next
    case False
    with Cons.prems(2) have mem: "port_name (h ! r) \<in> set ptc"
      by (auto simp: list_remove_def split: if_splits)
    with Cons.prems(2) False
    have run: "reconcile_ports h rs ((pre @ [r]) @ rs) (remove1 (port_name (h ! r)) ptc) = Inr (ps', ptc')"
      by (simp add: list_remove_def)
    from Cons.prems(1) False have pre': "\<forall>x \<in> set (pre @ [r]). bound_port h x"
      by (simp add: bound_port_def)
    from Cons.IH[OF pre' run]
    have ps: "ps' = (pre @ [r]) @ filter (bound_port h) rs"
      and lab: "\<forall>l \<in> set (remove1 (port_name (h ! r)) ptc).
                  l \<in> set ptc' \<or> (\<exists>r \<in> set rs. bound_port h r \<and> port_name (h ! r) = l)"
      by simp_all
    have "\<forall>l \<in> set ptc. l \<in> set ptc' \<or> (\<exists>r' \<in> set (r # rs). bound_port h r' \<and> port_name (h ! r') = l)"
    proof
      fix l assume l: "l \<in> set ptc"
      show "l \<in> set ptc' \<or> (\<exists>r' \<in> set (r # rs). bound_port h r' \<and> port_name (h ! r') = l)"
      proof (cases "l = port_name (h ! r)")
        case True
        with False show ?thesis by (auto simp: bound_port_def)
      next
        case ne: False
        with l have "l \<in> set (remove1 (port_name (h ! r)) ptc)" by simp
        with lab show ?thesis by auto
      qed
    qed
    moreover from False have "bound_port h r" by (simp add: bound_port_def)
    ultimately show ?thesis using ps by simp
  qed
qed

lemma reconcile_ports_raises:
  assumes "\<forall>x \<in> set pre. bound_port h x"
      and "\<exists>r \<in> set rs. bound_port h r \<and> port_name (h ! r) \<notin> set ptc"
  shows "\<exists>j < length rs. bound_port h (rs ! j)
           \<and> reconcile_ports h rs (pre @ rs) ptc = Inl (pre @ filter (bound_port h) (take j rs) @ drop j rs)"
  using assms
proof (induction rs arbitrary: pre ptc)
  case Nil
  then show ?case by simp
next
  case (Cons r rs)
  from Cons.prems(2) obtain r0 where r0: "r0 \<in> set (r # rs)" "bound_port h r0" "port_name (h ! r0) \<notin> set ptc"
    by blast
  show ?case
  proof (cases "isFree (h ! r)")
    case True
    with Cons.prems(1) have "r \<notin> set pre" by (auto simp: bound_port_def)
    then have rm: "list_remove r (pre @ r # rs) = Some (pre @ rs)"
      by (simp add: list_remove_def remove1_append)
    from r0 True have "r0 \<in> set rs" by (auto simp: bound_port_def)
    with r0 have "\<exists>r \<in> set rs. bound_port h r \<and> port_name (h ! r) \<notin> set ptc" by blast
    from Cons.IH[OF Cons.prems(1) this] obtain j where j: "j < length rs" "bound_port h (rs ! j)"
      "reconcile_ports h rs (pre @ rs) ptc = Inl (pre @ filter (bound_port h) (take j rs) @ drop j rs)"
      by blast
    from j True rm have "Suc j < length (r # rs) \<and> bound_port h ((r # rs) ! Suc j)
      \<and> reconcile_ports h (r # rs) (pre @ r # rs) ptc
          = Inl (pre @ filter (bound_port h) (take (Suc j) (r # rs)) @ drop (Suc j) (r # rs))"
      by (simp add: bound_port_def)
    then show ?thesis by blast
  next
    case False
    show ?thesis
    proof (cases "port_name (h ! r) \<in> set ptc")
      case nomem: False
      with False have "0 < length (r # rs) \<and> bound_port h ((r # rs) ! 0)
        \<and> reconcile_ports h (r # rs) (pre @ r # rs) ptc
            = Inl (pre @ filter (bound_port h) (take 0 (r # rs)) @ drop 0 (r # rs))"
        by (simp add: bound_port_def list_remove_def)
      then show ?thesis by blast
    next
      case mem: True
      with r0 have "r0 \<noteq> r" by auto
      with r0 have in_rs: "r0 \<in> set rs" by simp
      from r0(3) have "port_name (h ! r0) \<notin> set (remove1 (port_name (h ! r)) ptc)"
        using notin_set_remove1 by fast
      with in_rs r0(2)
      have ex: "\<exists>r' \<in> set rs. bound_port h r' \<and> port_name (h ! r') \<notin> set (remove1 (port_name (h ! r)) ptc)"
        by blast
      from Cons.prems(1) False have pre': "\<forall>x \<in> set (pre @ [r]). bound_port h x"
        by (simp add: bound_port_def)
      from Cons.IH[OF pre' ex] obtain j where j: "j < length rs" "bound_port h (rs ! j)"
        "reconcile_ports h rs ((pre @ [r]) @ rs) (remove1 (port_name (h ! r)) ptc)
           = Inl ((pre @ [r]) @ filter (bound_port h) (take j rs) @ drop j rs)"
        by blast
      from j False mem have "Suc j < length (r # rs) \<and> bound_port h ((r # rs) ! Suc j)
        \<and> reconcile_ports h (r # rs) (pre @ r # rs) ptc
            = Inl (pre @ filter (bound_port h) (take (Suc j) (r # rs)) @ drop (Suc j) (r # rs))"
        by (simp add: bound_port_def list_remove_def)
      then show ?thesis by blast
    qed
  qed
qed

lemma create_ports_returns:
  "create_ports names n = Inr n' \<Longrightarrow>
   ports n' = ports n @ [length (heap n) ..< length (heap n) + length names]
   \<and> length (heap n') = length (heap n) + length names
   \<and> (\<forall>i < length (heap n). heap n' ! i = heap n ! i)
   \<and> (\<forall>i < length names. port_name (heap n' ! (length (heap n) + i)) = names ! i)
   \<and> fr_settings n' = fr_settings n \<and> events n' = events n \<and> frsw_id n' = frsw_id n
   \<and> frsw_server n' = frsw_server n"
proof (induction names arbitrary: n)
  case Nil
  then show ?case by simp
next
  case (Cons pname rest)
  from Cons.prems obtain i where i: "py_int pname = Some i"
    by (auto split: option.splits)
  define n1 where "n1 = n\<lparr>heap := heap n @ [new_port pname i], ports := ports n @ [length (heap n)]\<rparr>"
  from Cons.prems i have run: "create_ports rest n1 = Inr n'" by (simp add: n1_def)
  from Cons.IH[OF run]
  have IHp: "ports n' = ports n1 @ [length (heap n1) ..< length (heap n1) + length rest]"
    and IHl: "length (heap n') = length (heap n1) + length rest"
    and IHh: "\<forall>i < length (heap n1). heap n' ! i = heap n1 ! i"
    and IHn: "\<forall>i < length rest. port_name (heap n' ! (length (heap n1) + i)) = rest ! i"
    and IHs: "fr_settings n' = fr_settings n1 \<and> events n' = events n1 \<and> frsw_id n' = frsw_id n1
      \<and> frsw_server n' = frsw_server n1"
    by simp_all
  have h1: "heap n1 = heap n @ [new_port pname i]" and p1: "ports n1 = ports n @ [length (heap n)]"
    and len1: "length (heap n1) = Suc (length (heap n))"
    by (simp_all add: n1_def)
  have u: "[length (heap n) ..< length (heap n) + length (pname # rest)]
      = length (heap n) # [Suc (length (heap n)) ..< Suc (length (heap n)) + length rest]"
    by (subst upt_conv_Cons) simp_all
  have a: "ports n' = ports n @ [length (heap n) ..< length (heap n) + length (pname # rest)]"
    unfolding u using IHp by (simp only: p1 len1 append_assoc append_Cons append_Nil)
  have b: "length (heap n') = length (heap n) + length (pname # rest)"
    using IHl by (simp add: len1)
  have c: "\<forall>j < length (heap n). heap n' ! j = heap n ! j"
    using IHh by (simp add: h1 len1 nth_append)
  have d: "\<forall>j < length (pname # rest). port_name (heap n' ! (length (heap n) + j)) = (pname # rest) ! j"
  proof (intro allI impI)
    fix j assume j: "j < length (pname # rest)"
    show "port_name (heap n' ! (length (heap n) + j)) = (pname # rest) ! j"
    proof (cases j)
      case 0
      from IHh have "heap n' ! length (heap n) = heap n1 ! length (heap n)"
        by (simp add: len1)
      then show ?thesis by (simp add: 0 h1 new_port_def)
    next
      case (Suc k)
      with j have "k < length rest" by simp
      with IHn have "port_name (heap n' ! (length (heap n1) + k)) = rest ! k" by blast
      then show ?thesis by (simp add: Suc len1)
    qed
  qed
  have e: "fr_settings n' = fr_settings n \<and> events n' = events n \<and> frsw_id n' = frsw_id n
      \<and> frsw_server n' = frsw_server n"
    using IHs by (simp add: n1_def)
  from a b c d e show ?case by blast
qed

lemma bound_port_eq: "bound_port h = (\<lambda>r. \<not> isFree (h ! r))"
  by (simp add: bound_port_def fun_eq_iff)

lemma py_int_5: "py_int ''5'' = Some 5"
  by (simp add: py_int_def digits_value_def strip_def is_space_def is_digit_def digit_val_def)

lemma py_int_blanks:
  "py_int [CHR 0x1F, CHR ''5''] = None"
  "py_int [CHR 0xA0, CHR ''5''] = Some 5"
  "py_int [CHR 0x09, CHR ''-'', CHR ''1'', CHR ''2'', CHR 0x85] = Some (- 12)"
  "py_int ''1_000'' = Some 1000"
  "py_int ''1__0'' = None"
  "py_int ''_1'' = None"
  "py_int ''+ 1'' = None"
  "py_int [] = None"
  by (simp_all add: py_int_def digits_value_def strip_def is_space_def is_digit_def digit_val_def)

text \<open>
  Claim C2. When \<open>update\<close> returns, on a switch whose ports are objects of the store:
  every endpoint label of the new mapping is the name of a port in the ports list;
  every port that was in the list before the call, was free and whose name is not
  among the labels is no longer in the list; every port that was bound before the call
  is still in the list, the object untouched; and the stored mapping is the new one.
\<close>

theorem update_reconciles_ports:
  assumes "ports_allocated n" and "update n new_settings = Inr n'"
  shows "(\<forall>l \<in> mapping_labels (s_mapping new_settings). \<exists>r \<in> set (ports n'). port_name (heap n' ! r) = l)
       \<and> (\<forall>r \<in> set (ports n). isFree (heap n ! r) \<and> port_name (heap n ! r) \<notin> mapping_labels (s_mapping new_settings)
             \<longrightarrow> r \<notin> set (ports n'))
       \<and> (\<forall>r \<in> set (ports n). \<not> isFree (heap n ! r) \<longrightarrow> r \<in> set (ports n') \<and> heap n' ! r = heap n ! r)
       \<and> s_mapping (fr_settings n') = s_mapping new_settings"
proof -
  define ptc where "ptc = collect_ports (s_mapping new_settings) []"
  have labels: "set ptc = mapping_labels (s_mapping new_settings)"
    by (simp add: ptc_def collect_ports_set)
  from assms(2) obtain ps ptc' where rec: "reconcile_ports (heap n) (ports n) (ports n) ptc = Inr (ps, ptc')"
    by (auto simp: update_def Let_def ptc_def split: sum.splits)
  with assms(2) obtain n1 where cr: "create_ports ptc' (n\<lparr>ports := ps\<rparr>) = Inr n1"
    and n': "n' = n1\<lparr>fr_settings := (fr_settings n1)\<lparr>s_mapping := s_mapping new_settings\<rparr>\<rparr>"
    by (auto simp: update_def Let_def ptc_def split: sum.splits)
  from reconcile_ports_returns[of "[]" "heap n" "ports n" ptc ps ptc'] rec
  have ps: "ps = filter (bound_port (heap n)) (ports n)"
    and cover: "\<forall>l \<in> set ptc. l \<in> set ptc' \<or> (\<exists>r \<in> set (ports n). bound_port (heap n) r \<and> port_name (heap n ! r) = l)"
    by simp_all
  from create_ports_returns[OF cr]
  have ports1: "ports n1 = ps @ [length (heap n) ..< length (heap n) + length ptc']"
    and old: "\<forall>i < length (heap n). heap n1 ! i = heap n ! i"
    and new: "\<forall>i < length ptc'. port_name (heap n1 ! (length (heap n) + i)) = ptc' ! i"
    by simp_all
  have ports': "ports n' = ps @ [length (heap n) ..< length (heap n) + length ptc']"
    and heap': "heap n' = heap n1"
    by (simp_all add: n' ports1)
  from assms(1) have alloc: "\<forall>r \<in> set (ports n). r < length (heap n)"
    by (simp add: ports_allocated_def list_all_iff)
  have c1: "\<forall>l \<in> mapping_labels (s_mapping new_settings). \<exists>r \<in> set (ports n'). port_name (heap n' ! r) = l"
  proof
    fix l assume "l \<in> mapping_labels (s_mapping new_settings)"
    with labels have l: "l \<in> set ptc" by simp
    from cover l consider (created) "l \<in> set ptc'"
      | (kept) r where "r \<in> set (ports n)" "bound_port (heap n) r" "port_name (heap n ! r) = l"
      by blast
    then show "\<exists>r \<in> set (ports n'). port_name (heap n' ! r) = l"
    proof cases
      case created
      then obtain i where i: "i < length ptc'" "ptc' ! i = l"
        by (auto simp: in_set_conv_nth)
      with new have "port_name (heap n' ! (length (heap n) + i)) = l"
        by (simp add: heap')
      moreover from i have "length (heap n) + i \<in> set (ports n')"
        by (simp add: ports')
      ultimately show ?thesis by blast
    next
      case kept
      from kept(1) alloc old have "heap n' ! r = heap n ! r" by (simp add: heap')
      with kept(3) have "port_name (heap n' ! r) = l" by simp
      moreover from kept have "r \<in> set (ports n')" by (simp add: ports' ps)
      ultimately show ?thesis by blast
    qed
  qed
  have c2: "\<forall>r \<in> set (ports n). isFree (heap n ! r) \<and> port_name (heap n ! r) \<notin> mapping_labels (s_mapping new_settings)
             \<longrightarrow> r \<notin> set (ports n')"
    using alloc by (auto simp: ports' ps bound_port_def)
  have c3: "\<forall>r \<in> set (ports n). \<not> isFree (heap n ! r) \<longrightarrow> r \<in> set (ports n') \<and> heap n' ! r = heap n ! r"
    using alloc old by (auto simp: ports' ps bound_port_def heap')
  have c4: "s_mapping (fr_settings n') = s_mapping new_settings"
    by (simp add: n')
  from c1 c2 c3 c4 show ?thesis by blast
qed

text \<open>
  Claim C10. When some port in the list is bound and its name is not among the endpoint
  labels of the new mapping, \<open>update\<close> raises \<open>ValueError\<close> part-way through the scan
  of the ports, at a bound port: the free ports scanned before it are gone from the
  list, that port and all after it are still there, and nothing else of the switch has
  changed, the stored mapping included.
\<close>

theorem update_raises_on_stale_bound_port:
  assumes "\<exists>r \<in> set (ports n). \<not> isFree (heap n ! r)
             \<and> port_name (heap n ! r) \<notin> mapping_labels (s_mapping new_settings)"
  shows "\<exists>j < length (ports n). \<not> isFree (heap n ! (ports n ! j))
           \<and> update n new_settings =
               Inl (ValueError,
                    n\<lparr>ports := filter (\<lambda>r. \<not> isFree (heap n ! r)) (take j (ports n)) @ drop j (ports n)\<rparr>)"
proof -
  define ptc where "ptc = collect_ports (s_mapping new_settings) []"
  have labels: "set ptc = mapping_labels (s_mapping new_settings)"
    by (simp add: ptc_def collect_ports_set)
  from assms labels
  have "\<exists>r \<in> set (ports n). bound_port (heap n) r \<and> port_name (heap n ! r) \<notin> set ptc"
    by (simp add: bound_port_def)
  from reconcile_ports_raises[of "[]" "heap n" "ports n" ptc, simplified, OF this]
  obtain j where j: "j < length (ports n)" "bound_port (heap n) (ports n ! j)"
    "reconcile_ports (heap n) (ports n) (ports n) ptc
       = Inl (filter (bound_port (heap n)) (take j (ports n)) @ drop j (ports n))"
    by blast
  from j(3) have "update n new_settings =
      Inl (ValueError, n\<lparr>ports := filter (\<lambda>r. \<not> isFree (heap n ! r)) (take j (ports n)) @ drop j (ports n)\<rparr>)"
    by (simp add: update_def Let_def ptc_def bound_port_eq)
  with j(1,2) show ?thesis by (auto simp: bound_port_def)
qed

lemma labels_rebind: "mapping_labels (s_mapping rebind_settings) = {''1'', ''5''}"
  by (auto simp: mapping_labels_def rebind_settings_def split0_def)

theorem update_reconciles_ports_witness:
  "ports_allocated provisioned_switch
   \<and> update provisioned_switch rebind_settings = Inr rebound_switch
   \<and> (\<exists>r \<in> set (ports rebound_switch). port_name (heap rebound_switch ! r) = ''5'')
   \<and> 0 \<notin> set (ports rebound_switch)
   \<and> 1 \<in> set (ports rebound_switch)"
proof -
  have h1: "ports_allocated provisioned_switch"
    by (simp add: ports_allocated_def provisioned_switch_def)
  have h2: "update provisioned_switch rebind_settings = Inr rebound_switch"
    by (simp add: update_def provisioned_switch_def rebind_settings_def rebound_switch_def
        split0_def isFree_def list_remove_def py_int_5 new_port_def Let_def)
  note t = update_reconciles_ports[OF h1 h2]
  have "''5'' \<in> mapping_labels (s_mapping rebind_settings)" by (simp add: labels_rebind)
  with t have c1: "\<exists>r \<in> set (ports rebound_switch). port_name (heap rebound_switch ! r) = ''5''"
    by blast
  have "0 \<in> set (ports provisioned_switch) \<and> isFree (heap provisioned_switch ! 0)
      \<and> port_name (heap provisioned_switch ! 0) \<notin> mapping_labels (s_mapping rebind_settings)"
    by (simp add: provisioned_switch_def isFree_def labels_rebind)
  with t have c2: "0 \<notin> set (ports rebound_switch)" by blast
  have "1 \<in> set (ports provisioned_switch) \<and> \<not> isFree (heap provisioned_switch ! 1)"
    by (simp add: provisioned_switch_def isFree_def)
  with t have c3: "1 \<in> set (ports rebound_switch)" by blast
  from h1 h2 c1 c2 c3 show ?thesis by blast
qed

theorem update_raises_on_stale_bound_port_witness:
  "(\<exists>r \<in> set (ports stale_switch). \<not> isFree (heap stale_switch ! r)
       \<and> port_name (heap stale_switch ! r) \<notin> mapping_labels (s_mapping rebind_settings))
   \<and> (\<exists>j < length (ports stale_switch). \<not> isFree (heap stale_switch ! (ports stale_switch ! j))
         \<and> update stale_switch rebind_settings =
             Inl (ValueError,
                  stale_switch\<lparr>ports := filter (\<lambda>r. \<not> isFree (heap stale_switch ! r)) (take j (ports stale_switch))
                                          @ drop j (ports stale_switch)\<rparr>))
   \<and> update stale_switch rebind_settings = Inl (ValueError, stale_switch\<lparr>ports := [1, 2]\<rparr>)
   \<and> ports stale_switch = [0, 1, 2]
   \<and> s_mapping (fr_settings stale_switch) \<noteq> s_mapping rebind_settings"
proof -
  have h: "\<exists>r \<in> set (ports stale_switch). \<not> isFree (heap stale_switch ! r)
       \<and> port_name (heap stale_switch ! r) \<notin> mapping_labels (s_mapping rebind_settings)"
    by (simp add: stale_switch_def isFree_def labels_rebind)
  have e: "update stale_switch rebind_settings = Inl (ValueError, stale_switch\<lparr>ports := [1, 2]\<rparr>)"
    by (simp add: update_def stale_switch_def rebind_settings_def split0_def isFree_def
        list_remove_def Let_def)
  have p: "ports stale_switch = [0, 1, 2]
      \<and> s_mapping (fr_settings stale_switch) \<noteq> s_mapping rebind_settings"
    by (simp add: stale_switch_def rebind_settings_def)
  from update_raises_on_stale_bound_port[OF h] h e p show ?thesis by blast
qed

end
